theory Spec2Isabelle
  imports Main "HOL-Library.Word" "HOL-Library.Sublist"
begin

section \<open>JavaScript strings\<close>

text \<open>
  A JavaScript string is a sequence of UTF-16 code units; \<open>length\<close>, \<open>slice\<close>, \<open>trim\<close>,
  \<open>replace\<close> and the regular expressions of \<open>uid.tsx\<close> (none has the \<open>u\<close> flag) all work
  on code units. The characters and string literals of the program text are ASCII;
  \<open>ch\<close> and \<open>lit\<close> embed them.
\<close>

type_synonym code_unit = "16 word"
type_synonym jsstring = "code_unit list"

definition ch :: "char \<Rightarrow> code_unit" where
  "ch c = of_char c"

definition lit :: "string \<Rightarrow> jsstring" where
  "lit s = map ch s"

text \<open>
  The code units that \<open>String.prototype.trim\<close> strips and that \<open>\s\<close> matches: WhiteSpace
  and LineTerminator of ECMAScript (TAB, LF, VT, FF, CR, SP, NBSP, U+1680, U+2000..U+200A,
  U+2028, U+2029, U+202F, U+205F, U+3000, U+FEFF).
\<close>

definition isWhiteSpace :: "code_unit \<Rightarrow> bool" where
  "isWhiteSpace c =
     (c = 0x9 \<or> c = 0xA \<or> c = 0xB \<or> c = 0xC \<or> c = 0xD \<or> c = 0x20 \<or> c = 0xA0 \<or>
      c = 0x1680 \<or> (0x2000 \<le> c \<and> c \<le> 0x200A) \<or> c = 0x2028 \<or> c = 0x2029 \<or>
      c = 0x202F \<or> c = 0x205F \<or> c = 0x3000 \<or> c = 0xFEFF)"

definition trim :: "jsstring \<Rightarrow> jsstring" where
  "trim s = rev (dropWhile isWhiteSpace (rev (dropWhile isWhiteSpace s)))"

text \<open>\<open>s.slice(0, n)\<close> for a non-negative \<open>n\<close>.\<close>

definition slice0 :: "nat \<Rightarrow> jsstring \<Rightarrow> jsstring" where
  "slice0 n s = take n s"

text \<open>
  \<open>s.replace(/c/g, rep)\<close> for a single-character pattern and a replacement text without
  \<open>$\<close>: every occurrence of \<open>c\<close> becomes \<open>rep\<close>.
\<close>

definition replaceAll :: "code_unit \<Rightarrow> jsstring \<Rightarrow> jsstring \<Rightarrow> jsstring" where
  "replaceAll c rep s = concat (map (\<lambda>x. if x = c then rep else [x]) s)"

section \<open>Conditional statements\<close>

text \<open>
  The functions of \<open>uid.tsx\<close> update a local variable under a condition
  (\<open>if (c) x += 2\<close>, \<open>if (c) buckets.push(b)\<close>, \<open>if (c) errors.k = m\<close>). A statement is
  a function from the old value of the variable to the new one: \<open>when c f\<close> is
  \<open>if (c) f\<close>, and \<open>ifElse c f g\<close> is \<open>if (c) f else g\<close>.
\<close>

definition "when" :: "bool \<Rightarrow> ('s \<Rightarrow> 's) \<Rightarrow> 's \<Rightarrow> 's" where
  "when c f s = (if c then f s else s)"

definition ifElse :: "bool \<Rightarrow> ('s \<Rightarrow> 's) \<Rightarrow> ('s \<Rightarrow> 's) \<Rightarrow> 's \<Rightarrow> 's" where
  "ifElse c f g s = (if c then f s else g s)"

text \<open>\<open>errors.k = m\<close> and \<open>buckets.push(b)\<close>.\<close>

definition setError :: "string \<Rightarrow> jsstring \<Rightarrow> (jsstring \<rightharpoonup> jsstring) \<Rightarrow> (jsstring \<rightharpoonup> jsstring)" where
  "setError k m errors = errors(lit k \<mapsto> m)"

definition push :: "'a \<Rightarrow> 'a list \<Rightarrow> 'a list" where
  "push x xs = xs @ [x]"

section \<open>Constants and types of \<open>uid.tsx\<close>\<close>

definition MAX_TEXT_LENGTH :: nat where
  "MAX_TEXT_LENGTH = 5000"

definition MAX_NAME_LENGTH :: nat where
  "MAX_NAME_LENGTH = 100"

datatype ageBand = under18 | band18to24 | band25to34 | band35to44 | band45to54 | band55to64 | band65plus

datatype employmentStatus =
  employed | selfEmployed | unemployed | student | carer | retired | unableToWork

datatype relationshipStatus =
  single | inRelationship | marriedCivil | separated | divorced | widowed

datatype housing = secure | temporary | sofaSurfing | atRisk | homeless

datatype dependents = noDependents | children | adultDependents | both

datatype severity = low | moderate | high | crisis

datatype preferredContact = byEmail | byPhone | bySms

datatype source = web | facebook | referral | walkIn | other

record riskFlags =
  selfHarm :: bool
  harmToOthers :: bool
  domesticAbuse :: bool
  substanceRisk :: bool

record consent =
  privacyPolicyAccepted :: bool
  shareWithPartners :: bool
  anonymisedInsights :: bool
  crisisProtocolOk :: bool

text \<open>
  \<open>IntakeData\<close>: a field declared with \<open>?\<close> is an \<open>option\<close>, \<open>None\<close> being \<open>undefined\<close>.
  The fields \<open>riskFlags\<close> and \<open>consent\<close> are required by the type, so the optional
  chaining \<open>d.riskFlags?.x\<close> and \<open>d.consent?.x\<close> of the code always reads the field.
\<close>

record IntakeData =
  firstName :: jsstring
  lastName :: jsstring
  pronouns :: "jsstring option"
  email :: jsstring
  phone :: "jsstring option"
  postcode :: "jsstring option"
  ageBand :: "ageBand option"
  employmentStatus :: "employmentStatus option"
  relationshipStatus :: "relationshipStatus option"
  housing :: "housing option"
  dependents :: "dependents option"
  concerns :: "jsstring list"
  concernDetails :: "jsstring option"
  severity :: "severity option"
  riskFlags :: riskFlags
  gpRegistered :: "bool option"
  supportPreferences :: "jsstring list"
  availability :: "jsstring option"
  preferredContact :: "preferredContact option"
  consent :: consent
  source :: "source option"

section \<open>Client-side triage\<close>

datatype priority = Low | Medium | High | Immediate

record classification =
  riskScore :: int
  buckets :: "jsstring list"
  priority :: priority

text \<open>
  \<open>computeClassification\<close>, statement by statement: \<open>score\<close> is the variable
  \<open>riskScore\<close>, \<open>bs\<close> the array \<open>buckets\<close>, \<open>c\<close> the set built from \<open>d.concerns\<close>.
\<close>

definition computeClassification :: "IntakeData \<Rightarrow> classification" where
  "computeClassification d =
    (let score = (0::int);
         score = when (severity d = Some moderate) (\<lambda>s. s + 2) score;
         score = when (severity d = Some high) (\<lambda>s. s + 4) score;
         score = when (severity d = Some crisis) (\<lambda>s. s + 6) score;
         score = when (selfHarm (riskFlags d)) (\<lambda>s. s + 6) score;
         score = when (domesticAbuse (riskFlags d)) (\<lambda>s. s + 6) score;
         score = when (harmToOthers (riskFlags d)) (\<lambda>s. s + 4) score;
         score = when (substanceRisk (riskFlags d)) (\<lambda>s. s + 3) score;
         score = when (housing d = Some homeless \<or> housing d = Some atRisk)
                   (\<lambda>s. s + 3) score;
         score = when (employmentStatus d = Some unemployed
                       \<or> employmentStatus d = Some unableToWork) (\<lambda>s. s + 2) score;
         bs = [];
         c = set (concerns d);
         bs = when (lit ''abuse'' \<in> c) (push (lit ''Safety/Crisis'')) bs;
         bs = when (lit ''emotional'' \<in> c \<or> lit ''addiction'' \<in> c)
                (push (lit ''Mental Health & Addiction'')) bs;
         bs = when (lit ''employment'' \<in> c) (push (lit ''Employment & Skills'')) bs;
         bs = when (lit ''finance'' \<in> c) (push (lit ''Money/Debt Advice'')) bs;
         bs = when (lit ''housing'' \<in> c) (push (lit ''Housing Support'')) bs;
         bs = when (lit ''relationships'' \<in> c) (push (lit ''Family/Relationship Support'')) bs;
         bs = when (lit ''health'' \<in> c) (push (lit ''Physical Health Navigation'')) bs;
         bs = when (lit ''social'' \<in> c) (push (lit ''Connection/Peer Support'')) bs;
         p = Low;
         p = (if score \<ge> 12 then Immediate
              else if score \<ge> 8 then High
              else if score \<ge> 4 then Medium
              else p)
     in \<lparr> riskScore = score, buckets = bs, priority = p \<rparr>)"

text \<open>The contributions of the specification's scoring table, one function per field.\<close>

definition severityWeight :: "severity option \<Rightarrow> int" where
  "severityWeight s =
     (case s of Some moderate \<Rightarrow> 2 | Some high \<Rightarrow> 4 | Some crisis \<Rightarrow> 6
      | Some low \<Rightarrow> 0 | None \<Rightarrow> 0)"

definition flagWeight :: "int \<Rightarrow> bool \<Rightarrow> int" where
  "flagWeight w b = (if b then w else 0)"

definition housingWeight :: "housing option \<Rightarrow> int" where
  "housingWeight h = (if h = Some homeless \<or> h = Some atRisk then 3 else 0)"

definition employmentWeight :: "employmentStatus option \<Rightarrow> int" where
  "employmentWeight e = (if e = Some unemployed \<or> e = Some unableToWork then 2 else 0)"

section \<open>Reference values of the specification\<close>

text \<open>
  The priority thresholds, the canonical display order of the buckets, and the record the
  wizard starts from (the initial state of \<open>ModernIntakePage\<close>).
\<close>

definition priorityOf :: "int \<Rightarrow> priority" where
  "priorityOf score =
     (if score \<ge> 12 then Immediate else if score \<ge> 8 then High
      else if score \<ge> 4 then Medium else Low)"

text \<open>The bucket a rule contributes: one element when its condition holds, none otherwise.\<close>

definition pick :: "bool \<Rightarrow> jsstring \<Rightarrow> jsstring list" where
  "pick b x = (if b then [x] else [])"

definition canonicalOrder :: "jsstring list" where
  "canonicalOrder =
     [lit ''Safety/Crisis'', lit ''Mental Health & Addiction'', lit ''Employment & Skills'',
      lit ''Money/Debt Advice'', lit ''Housing Support'', lit ''Family/Relationship Support'',
      lit ''Physical Health Navigation'', lit ''Connection/Peer Support'']"

definition noRiskFlags :: riskFlags where
  "noRiskFlags = \<lparr> selfHarm = False, harmToOthers = False, domesticAbuse = False,
                   substanceRisk = False \<rparr>"

definition initialData :: IntakeData where
  "initialData =
     \<lparr> firstName = lit '''', lastName = lit '''', pronouns = Some (lit ''''), email = lit '''',
       phone = Some (lit ''''), postcode = Some (lit ''''), ageBand = None,
       employmentStatus = None, relationshipStatus = None, housing = None,
       dependents = Some noDependents, concerns = [], concernDetails = Some (lit ''''),
       severity = None, riskFlags = noRiskFlags, gpRegistered = None,
       supportPreferences = [], availability = Some (lit ''''), preferredContact = None,
       consent = \<lparr> privacyPolicyAccepted = False, shareWithPartners = False,
                   anonymisedInsights = True, crisisProtocolOk = False \<rparr>,
       source = Some web \<rparr>"

section \<open>Regular expressions\<close>

text \<open>
  The three patterns of \<open>uid.tsx\<close> use anchors, single characters, character classes,
  groups with alternatives, and quantifiers applied to a character or a class. A match
  state is the index of the next code unit and the input that remains; a pattern maps a
  state to the list of states it can end in, in the order the backtracking matcher tries
  them (a quantifier is greedy).
\<close>

datatype regex =
    Bol
  | Eol
  | Eps
  | Chr code_unit
  | Cls "code_unit \<Rightarrow> bool"
  | Many nat "nat option" "code_unit \<Rightarrow> bool"
  | Seq regex regex
  | Alt regex regex

fun many :: "nat \<Rightarrow> nat option \<Rightarrow> (code_unit \<Rightarrow> bool) \<Rightarrow> nat \<Rightarrow> jsstring \<Rightarrow> (nat \<times> jsstring) list" where
  "many lo hi p i [] = (if lo = 0 then [(i, [])] else [])"
| "many lo hi p i (c # cs) =
     (if hi \<noteq> Some 0 \<and> p c
      then many (lo - 1) (map_option (\<lambda>h. h - 1) hi) p (Suc i) cs else [])
     @ (if lo = 0 then [(i, c # cs)] else [])"

fun run :: "regex \<Rightarrow> nat \<times> jsstring \<Rightarrow> (nat \<times> jsstring) list" where
  "run Bol (i, s) = (if i = 0 then [(i, s)] else [])"
| "run Eol (i, s) = (if s = [] then [(i, s)] else [])"
| "run Eps (i, s) = [(i, s)]"
| "run (Chr c) (i, s) = (case s of [] \<Rightarrow> [] | x # xs \<Rightarrow> if x = c then [(Suc i, xs)] else [])"
| "run (Cls p) (i, s) = (case s of [] \<Rightarrow> [] | x # xs \<Rightarrow> if p x then [(Suc i, xs)] else [])"
| "run (Many lo hi p) (i, s) = many lo hi p i s"
| "run (Seq a b) st = concat (map (run b) (run a st))"
| "run (Alt a b) st = run a st @ run b st"

text \<open>
  \<open>re.test(s)\<close> for a pattern without the \<open>g\<close> and \<open>y\<close> flags: the matcher is tried at
  every start index from 0 to the length of \<open>s\<close>.
\<close>

definition starts :: "jsstring \<Rightarrow> (nat \<times> jsstring) list" where
  "starts s = map (\<lambda>i. (i, drop i s)) [0..<Suc (length s)]"

definition test :: "regex \<Rightarrow> jsstring \<Rightarrow> bool" where
  "test r s = list_ex (\<lambda>st. run r st \<noteq> []) (starts s)"

definition seqs :: "regex list \<Rightarrow> regex" where
  "seqs rs = foldr Seq rs Eps"

definition str :: "string \<Rightarrow> regex" where
  "str s = seqs (map (\<lambda>c. Chr (ch c)) s)"

text \<open>\<open>\d\<close>, \<open>[^\s@]\<close>, and \<open>[A-Z]\<close>, \<open>[A-Z\d]\<close> under the \<open>i\<close> flag.\<close>

definition digit :: "code_unit \<Rightarrow> bool" where
  "digit c = (0x30 \<le> c \<and> c \<le> 0x39)"

definition notSpaceAt :: "code_unit \<Rightarrow> bool" where
  "notSpaceAt c = (\<not> (isWhiteSpace c \<or> c = ch CHR ''@''))"

definition letter_i :: "code_unit \<Rightarrow> bool" where
  "letter_i c = ((0x41 \<le> c \<and> c \<le> 0x5A) \<or> (0x61 \<le> c \<and> c \<le> 0x7A))"

definition letterOrDigit_i :: "code_unit \<Rightarrow> bool" where
  "letterOrDigit_i c = (letter_i c \<or> digit c)"

text \<open>
  \<^verbatim>\<open>/^[^\s@]+@[^\s@]+\.[^\s@]+$/i\<close>. The \<open>i\<close> flag changes nothing here: no code unit has
  white space or \<open>@\<close> as its upper-case form.
\<close>

definition emailRe :: regex where
  "emailRe = seqs [Bol, Many 1 None notSpaceAt, Chr (ch CHR ''@''),
                   Many 1 None notSpaceAt, Chr (ch CHR ''.''),
                   Many 1 None notSpaceAt, Eol]"

text \<open>
  \<^verbatim>\<open>/^(\+44\s?7\d{3}|07\d{3})\s?\d{3}\s?\d{3}$|^(\+44\s?1\d{3}|01\d{3}|\+44\s?2\d{2}|02\d{2})\s?\d{3,4}\s?\d{3,4}$/\<close>
\<close>

definition ukPhoneRe :: regex where
  "ukPhoneRe =
     Alt (seqs [Bol,
                Alt (seqs [str ''+44'', Many 0 (Some 1) isWhiteSpace, str ''7'',
                           Many 3 (Some 3) digit])
                    (seqs [str ''07'', Many 3 (Some 3) digit]),
                Many 0 (Some 1) isWhiteSpace, Many 3 (Some 3) digit,
                Many 0 (Some 1) isWhiteSpace, Many 3 (Some 3) digit, Eol])
         (seqs [Bol,
                Alt (seqs [str ''+44'', Many 0 (Some 1) isWhiteSpace, str ''1'',
                           Many 3 (Some 3) digit])
               (Alt (seqs [str ''01'', Many 3 (Some 3) digit])
               (Alt (seqs [str ''+44'', Many 0 (Some 1) isWhiteSpace, str ''2'',
                           Many 2 (Some 2) digit])
                    (seqs [str ''02'', Many 2 (Some 2) digit]))),
                Many 0 (Some 1) isWhiteSpace, Many 3 (Some 4) digit,
                Many 0 (Some 1) isWhiteSpace, Many 3 (Some 4) digit, Eol])"

text \<open>\<^verbatim>\<open>/^[A-Z]{1,2}\d[A-Z\d]?\s?\d[A-Z]{2}$/i\<close>\<close>

definition postcodeRe :: regex where
  "postcodeRe = seqs [Bol, Many 1 (Some 2) letter_i, Cls digit,
                      Many 0 (Some 1) letterOrDigit_i, Many 0 (Some 1) isWhiteSpace,
                      Cls digit, Many 2 (Some 2) letter_i, Eol]"

section \<open>Validators\<close>

text \<open>The decimal digits of a number, as a template literal prints \<open>${n}\<close>.\<close>

fun decimal :: "nat \<Rightarrow> jsstring" where
  "decimal n = (if n < 10 then [of_nat (48 + n)]
                else decimal (n div 10) @ [of_nat (48 + n mod 10)])"

declare decimal.simps [simp del]

text \<open>
  \<open>validateStep\<close>: \<open>errors\<close> is the object the code fills, a map from property name to
  message; \<open>step\<close> is an integer (the wizard passes 1 to 5). A string is falsy exactly
  when it is empty, an optional field when it is \<open>undefined\<close> or the empty string;
  \<open>present_and v P\<close> is \<open>v && P(v)\<close> for an optional string \<open>v\<close>. The fields \<open>firstName\<close>,
  \<open>lastName\<close>, \<open>email\<close> and \<open>concerns\<close> are required by the type, so \<open>!d.firstName?.trim()\<close>
  holds exactly when the trimmed string is empty, and \<open>!d.concerns\<close> never holds.
\<close>

definition present_and :: "jsstring option \<Rightarrow> (jsstring \<Rightarrow> bool) \<Rightarrow> bool" where
  "present_and v P = (case v of None \<Rightarrow> False | Some s \<Rightarrow> s \<noteq> [] \<and> P s)"

definition validateStep :: "int \<Rightarrow> IntakeData \<Rightarrow> (jsstring \<rightharpoonup> jsstring)" where
  "validateStep step d =
    (let errors = Map.empty;
         errors = when (step = 1) (\<lambda>errors.
           (let errors =
                  ifElse (trim (firstName d) = [])
                    (setError ''firstName'' (lit ''First name is required''))
                    (when (length (firstName d) > MAX_NAME_LENGTH)
                       (setError ''firstName''
                          (lit ''First name must be less than '' @ decimal MAX_NAME_LENGTH
                           @ lit '' characters''))) errors;
                errors =
                  ifElse (trim (lastName d) = [])
                    (setError ''lastName'' (lit ''Last name is required''))
                    (when (length (lastName d) > MAX_NAME_LENGTH)
                       (setError ''lastName''
                          (lit ''Last name must be less than '' @ decimal MAX_NAME_LENGTH
                           @ lit '' characters''))) errors;
                errors =
                  when (trim (email d) = [] \<or> \<not> test emailRe (email d))
                    (setError ''email'' (lit ''Enter a valid email address'')) errors;
                errors =
                  when (present_and (phone d) (\<lambda>v. \<not> test ukPhoneRe v))
                    (setError ''phone'' (lit ''Enter a valid UK phone number'')) errors;
                errors =
                  when (present_and (postcode d) (\<lambda>v. \<not> test postcodeRe v))
                    (setError ''postcode''
                       (lit ''Enter a valid UK postcode (e.g., SW1A 1AA)'')) errors
            in errors)) errors;
         errors = when (step = 2) (\<lambda>errors.
           (let errors =
                  when (employmentStatus d = None)
                    (setError ''employmentStatus''
                       (lit ''Select your current employment status'')) errors;
                errors =
                  when (relationshipStatus d = None)
                    (setError ''relationshipStatus''
                       (lit ''Select your current relationship status'')) errors;
                errors =
                  when (housing d = None)
                    (setError ''housing'' (lit ''Select your housing situation'')) errors
            in errors)) errors;
         errors = when (step = 3) (\<lambda>errors.
           (let errors =
                  when (length (concerns d) = 0)
                    (setError ''concerns''
                       (lit ''Pick at least one area you want help with'')) errors;
                errors =
                  when (severity d = None)
                    (setError ''severity''
                       (lit ''How urgent/severe does this feel right now?'')) errors;
                errors =
                  when (present_and (concernDetails d) (\<lambda>v. length v > MAX_TEXT_LENGTH))
                    (setError ''concernDetails''
                       (lit ''Details must be less than '' @ decimal MAX_TEXT_LENGTH
                        @ lit '' characters'')) errors
            in errors)) errors;
         errors = when (step = 4)
           (when (preferredContact d = None)
              (setError ''preferredContact'' (lit ''Choose how we should contact you''))) errors;
         errors = when (step = 5) (\<lambda>errors.
           (let errors =
                  when (\<not> privacyPolicyAccepted (consent d))
                    (setError ''privacy''
                       (lit ''You must accept the Privacy Policy to continue'')) errors;
                errors =
                  when (\<not> crisisProtocolOk (consent d)
                        \<and> (severity d = Some high \<or> severity d = Some crisis))
                    (setError ''crisis'' (lit ''Please acknowledge the crisis protocol'')) errors
            in errors)) errors
     in errors)"

text \<open>
  The shape "local@domain.tld" of the specification: a local part, \<open>@\<close>, a domain,
  a dot and a top-level part, each part non-empty and free of white space and \<open>@\<close>.
\<close>

definition local_domain_tld :: "jsstring \<Rightarrow> bool" where
  "local_domain_tld s =
     (\<exists>name host tld. s = name @ lit ''@'' @ host @ lit ''.'' @ tld
        \<and> name \<noteq> [] \<and> host \<noteq> [] \<and> tld \<noteq> []
        \<and> list_all notSpaceAt name \<and> list_all notSpaceAt host \<and> list_all notSpaceAt tld)"

section \<open>Security helpers\<close>

definition sanitizeInput :: "jsstring \<Rightarrow> jsstring" where
  "sanitizeInput input =
     slice0 MAX_TEXT_LENGTH
       (trim
         (replaceAll (ch CHR ''/'') (lit ''&#x2F;'')
           (replaceAll (ch CHR 0x27) (lit ''&#x27;'')
             (replaceAll (ch CHR 0x22) (lit ''&quot;'')
               (replaceAll (ch CHR ''>'') (lit ''&gt;'')
                 (replaceAll (ch CHR ''<'') (lit ''&lt;'') input))))))"

text \<open>
  The value of the five \<open>replace\<close> calls of \<open>sanitizeInput\<close>, the characters they replace,
  and a text of 4998 code units (\<open><\<close>, 4995 times \<open>a\<close>, a space, \<open>b\<close>) whose escaped form
  has 5001 code units with a space at index 4999.
\<close>

definition escaped :: "jsstring \<Rightarrow> jsstring" where
  "escaped input =
     replaceAll (ch CHR ''/'') (lit ''&#x2F;'')
       (replaceAll (ch CHR 0x27) (lit ''&#x27;'')
         (replaceAll (ch CHR 0x22) (lit ''&quot;'')
           (replaceAll (ch CHR ''>'') (lit ''&gt;'')
             (replaceAll (ch CHR ''<'') (lit ''&lt;'') input))))"

definition special :: "code_unit set" where
  "special = {ch CHR ''<'', ch CHR ''>'', ch CHR 0x22, ch CHR 0x27,
              ch CHR ''/''}"

definition longInput :: jsstring where
  "longInput = lit ''<'' @ replicate 4995 (ch CHR ''a'') @ lit '' b''"

text \<open>
  The environment \<open>generateSecureId\<close> runs in: the global \<open>crypto\<close> (\<open>None\<close> when
  \<open>typeof crypto\<close> is \<open>"undefined"\<close>) with its two optional methods, and the wall clock
  \<open>Date.now()\<close>. \<open>randomUUID\<close> is given by the string the call returns,
  \<open>getRandomValues\<close> by the byte it writes at each index of the array it fills.
\<close>

record cryptoApi =
  randomUUID :: "jsstring option"
  getRandomValues :: "(nat \<Rightarrow> 8 word) option"

record environment =
  crypto :: "cryptoApi option"
  now :: nat

datatype error = Error jsstring

text \<open>\<open>b.toString(16).padStart(2, "0")\<close> for a byte \<open>b\<close>.\<close>

definition hexDigit :: "nat \<Rightarrow> code_unit" where
  "hexDigit n = lit ''0123456789abcdef'' ! n"

definition toString16 :: "8 word \<Rightarrow> jsstring" where
  "toString16 b = (if unat b < 16 then [hexDigit (unat b)]
                   else [hexDigit (unat b div 16), hexDigit (unat b mod 16)])"

definition padStart2 :: "jsstring \<Rightarrow> jsstring" where
  "padStart2 s = replicate (2 - length s) (ch CHR ''0'') @ s"

text \<open>\<open>s.slice(a, b)\<close> and \<open>s.slice(a)\<close> for indices \<open>0 \<le> a \<le> b\<close>.\<close>

definition slice :: "nat \<Rightarrow> nat \<Rightarrow> jsstring \<Rightarrow> jsstring" where
  "slice a b s = take (b - a) (drop a s)"

definition sliceFrom :: "nat \<Rightarrow> jsstring \<Rightarrow> jsstring" where
  "sliceFrom a s = drop a s"

definition uuidFromBytes :: "8 word list \<Rightarrow> jsstring" where
  "uuidFromBytes bytes0 =
    (let bytes = bytes0[6 := or (and (bytes0 ! 6) 0x0f) 0x40];
         bytes = bytes[8 := or (and (bytes ! 8) 0x3f) 0x80];
         hex = concat (map (\<lambda>b. padStart2 (toString16 b)) bytes)
     in slice 0 8 hex @ lit ''-'' @ slice 8 12 hex @ lit ''-'' @ slice 12 16 hex @ lit ''-''
        @ slice 16 20 hex @ lit ''-'' @ sliceFrom 20 hex)"

definition generateSecureId :: "environment \<Rightarrow> error + jsstring" where
  "generateSecureId env =
    (case Option.bind (crypto env) randomUUID of
       Some uuid \<Rightarrow> Inr uuid
     | None \<Rightarrow>
        (case Option.bind (crypto env) getRandomValues of
           Some fill \<Rightarrow> Inr (uuidFromBytes (map fill [0..<16]))
         | None \<Rightarrow> Inl (Error (lit ''Crypto API not available''))))"

section \<open>Literals\<close>

lemma ch_eq_iff [simp]: "ch a = ch b \<longleftrightarrow> a = b"
proof -
  have lt: "(of_char c :: nat) < 2 ^ 16" for c
  proof -
    have "(of_char c :: nat) = of_char c mod 256" by simp
    also have "\<dots> < 256" by (rule mod_less_divisor) simp
    finally have "(of_char c :: nat) < 256" .
    then show ?thesis by (rule less_trans) simp
  qed
  have "(of_char a :: 16 word) = of_char b
        \<longleftrightarrow> (word_of_nat (of_char a) :: 16 word) = word_of_nat (of_char b)"
    by (simp only: of_nat_of_char)
  also have "\<dots> \<longleftrightarrow> take_bit 16 (of_char a :: nat) = take_bit 16 (of_char b :: nat)"
    by (simp add: word_of_nat_eq_iff)
  also have "\<dots> \<longleftrightarrow> (of_char a :: nat) = of_char b"
    using lt by (simp add: take_bit_nat_eq_self)
  finally show ?thesis by (simp add: ch_def)
qed

lemma lit_eq_iff [simp]: "lit a = lit b \<longleftrightarrow> a = b"
proof -
  have "inj ch"
    by (rule injI) simp
  then show ?thesis
    unfolding lit_def by (rule inj_map_eq_map)
qed

section \<open>Properties of the triage\<close>

lemma when_add: "when c (\<lambda>s. s + k) (x::int) = x + (if c then k else 0)"
  by (simp add: when_def)

lemma riskScore_sum:
  "riskScore (computeClassification d) =
     severityWeight (severity d)
     + flagWeight 6 (selfHarm (riskFlags d))
     + flagWeight 6 (domesticAbuse (riskFlags d))
     + flagWeight 4 (harmToOthers (riskFlags d))
     + flagWeight 3 (substanceRisk (riskFlags d))
     + housingWeight (housing d)
     + employmentWeight (employmentStatus d)"
proof -
  have sev: "(if severity d = Some moderate then 2 else 0)
           + (if severity d = Some high then 4 else 0)
           + (if severity d = Some crisis then 6 else (0::int)) = severityWeight (severity d)"
    by (simp add: severityWeight_def split: option.split severity.split)
  have "riskScore (computeClassification d) =
          (if severity d = Some moderate then 2 else 0)
           + (if severity d = Some high then 4 else 0)
           + (if severity d = Some crisis then 6 else (0::int))
     + flagWeight 6 (selfHarm (riskFlags d))
     + flagWeight 6 (domesticAbuse (riskFlags d))
     + flagWeight 4 (harmToOthers (riskFlags d))
     + flagWeight 3 (substanceRisk (riskFlags d))
     + housingWeight (housing d)
     + employmentWeight (employmentStatus d)"
    unfolding computeClassification_def Let_def when_add flagWeight_def housingWeight_def
      employmentWeight_def
    by (simp only: classification.simps add_0)
  then show ?thesis by (simp only: sev)
qed

lemma severityWeight_bounds: "0 \<le> severityWeight s \<and> severityWeight s \<le> 6"
  by (simp add: severityWeight_def split: option.split severity.split)

lemma flagWeight_bounds: "0 \<le> w \<Longrightarrow> 0 \<le> flagWeight w b \<and> flagWeight w b \<le> w"
  by (simp add: flagWeight_def)

lemma housingWeight_bounds: "0 \<le> housingWeight h \<and> housingWeight h \<le> 3"
  by (simp add: housingWeight_def)

lemma employmentWeight_bounds: "0 \<le> employmentWeight e \<and> employmentWeight e \<le> 2"
  by (simp add: employmentWeight_def)

lemma riskScore_bounds:
  "0 \<le> riskScore (computeClassification d) \<and> riskScore (computeClassification d) \<le> 30"
  using severityWeight_bounds [of "severity d"]
    flagWeight_bounds [of 6 "selfHarm (riskFlags d)"]
    flagWeight_bounds [of 6 "domesticAbuse (riskFlags d)"]
    flagWeight_bounds [of 4 "harmToOthers (riskFlags d)"]
    flagWeight_bounds [of 3 "substanceRisk (riskFlags d)"]
    housingWeight_bounds [of "housing d"]
    employmentWeight_bounds [of "employmentStatus d"]
  unfolding riskScore_sum by linarith

lemma priority_of_score:
  "priority (computeClassification d) = priorityOf (riskScore (computeClassification d))"
  unfolding computeClassification_def Let_def priorityOf_def
  by (simp only: classification.simps)

lemma when_push: "when c (push x) xs = xs @ pick c x"
  by (cases c) (simp_all add: when_def push_def pick_def)

lemma buckets_append:
  "buckets (computeClassification d) =
     pick (lit ''abuse'' \<in> set (concerns d)) (lit ''Safety/Crisis'')
     @ pick (lit ''emotional'' \<in> set (concerns d) \<or> lit ''addiction'' \<in> set (concerns d))
         (lit ''Mental Health & Addiction'')
     @ pick (lit ''employment'' \<in> set (concerns d)) (lit ''Employment & Skills'')
     @ pick (lit ''finance'' \<in> set (concerns d)) (lit ''Money/Debt Advice'')
     @ pick (lit ''housing'' \<in> set (concerns d)) (lit ''Housing Support'')
     @ pick (lit ''relationships'' \<in> set (concerns d)) (lit ''Family/Relationship Support'')
     @ pick (lit ''health'' \<in> set (concerns d)) (lit ''Physical Health Navigation'')
     @ pick (lit ''social'' \<in> set (concerns d)) (lit ''Connection/Peer Support'')"
  unfolding computeClassification_def Let_def when_push
  by (simp only: classification.simps append_Nil append_assoc)

lemma set_pick: "set (pick b x) = (if b then {x} else {})"
  by (cases b) (simp_all add: pick_def)

lemma subseq_pick: "subseq (pick b x) [x]"
  by (cases b) (simp_all add: pick_def)

lemma buckets_subseq: "subseq (buckets (computeClassification d)) canonicalOrder"
proof -
  have "subseq (buckets (computeClassification d))
          ([lit ''Safety/Crisis''] @ [lit ''Mental Health & Addiction'']
           @ [lit ''Employment & Skills''] @ [lit ''Money/Debt Advice'']
           @ [lit ''Housing Support''] @ [lit ''Family/Relationship Support'']
           @ [lit ''Physical Health Navigation''] @ [lit ''Connection/Peer Support''])"
    unfolding buckets_append
    by (intro list_emb_append_mono subseq_pick)
  then show ?thesis by (simp add: canonicalOrder_def)
qed

lemma canonicalOrder_distinct: "distinct canonicalOrder"
  by (simp add: canonicalOrder_def)

lemma buckets_distinct: "distinct (buckets (computeClassification d))"
proof -
  obtain N where "buckets (computeClassification d) = nths canonicalOrder N"
    using buckets_subseq [of d] unfolding subseq_conv_nths by blast
  then show ?thesis by (simp add: canonicalOrder_distinct)
qed

lemma buckets_mem:
  "x \<in> set (buckets (computeClassification d)) \<longleftrightarrow>
     (x = lit ''Safety/Crisis'' \<and> lit ''abuse'' \<in> set (concerns d))
   \<or> (x = lit ''Mental Health & Addiction''
        \<and> (lit ''emotional'' \<in> set (concerns d) \<or> lit ''addiction'' \<in> set (concerns d)))
   \<or> (x = lit ''Employment & Skills'' \<and> lit ''employment'' \<in> set (concerns d))
   \<or> (x = lit ''Money/Debt Advice'' \<and> lit ''finance'' \<in> set (concerns d))
   \<or> (x = lit ''Housing Support'' \<and> lit ''housing'' \<in> set (concerns d))
   \<or> (x = lit ''Family/Relationship Support'' \<and> lit ''relationships'' \<in> set (concerns d))
   \<or> (x = lit ''Physical Health Navigation'' \<and> lit ''health'' \<in> set (concerns d))
   \<or> (x = lit ''Connection/Peer Support'' \<and> lit ''social'' \<in> set (concerns d))"
  by (simp add: buckets_append set_pick)

lemma buckets_cong:
  "set (concerns d') = set (concerns d) \<Longrightarrow>
   buckets (computeClassification d') = buckets (computeClassification d)"
  by (simp add: buckets_append)

text \<open>
  Claim C1. For every record, the risk score is the sum of the independent contributions
  of severity (moderate 2, high 4, crisis 6, low or unset 0), of the four risk flags
  (selfHarm 6, domesticAbuse 6, harmToOthers 4, substanceRisk 3), of housing (homeless or
  atRisk 3) and of employment (unemployed or unableToWork 2); so it lies between 0 and 30.
\<close>

theorem riskScore_contributions:
  "riskScore (computeClassification d) =
     severityWeight (severity d)
     + flagWeight 6 (selfHarm (riskFlags d))
     + flagWeight 6 (domesticAbuse (riskFlags d))
     + flagWeight 4 (harmToOthers (riskFlags d))
     + flagWeight 3 (substanceRisk (riskFlags d))
     + housingWeight (housing d)
     + employmentWeight (employmentStatus d)
   \<and> 0 \<le> riskScore (computeClassification d)
   \<and> riskScore (computeClassification d) \<le> 30"
  using riskScore_sum [of d] riskScore_bounds [of d] by simp

text \<open>
  Claim C2. The priority is a function of the risk score alone: Immediate from 12, High
  from 8, Medium from 4, Low below. A record with severity crisis, no risk flag, secure
  housing, employed, and the single concern "emotional" has score 6, priority Medium and
  the one bucket "Mental Health & Addiction".
\<close>

theorem priority_thresholds:
  "priority (computeClassification d) =
     (if riskScore (computeClassification d) \<ge> 12 then Immediate
      else if riskScore (computeClassification d) \<ge> 8 then High
      else if riskScore (computeClassification d) \<ge> 4 then Medium
      else Low)
   \<and> riskScore (computeClassification
        (d\<lparr> severity := Some crisis, riskFlags := noRiskFlags, housing := Some secure,
            employmentStatus := Some employed, concerns := [lit ''emotional''] \<rparr>)) = 6
   \<and> priority (computeClassification
        (d\<lparr> severity := Some crisis, riskFlags := noRiskFlags, housing := Some secure,
            employmentStatus := Some employed, concerns := [lit ''emotional''] \<rparr>)) = Medium
   \<and> buckets (computeClassification
        (d\<lparr> severity := Some crisis, riskFlags := noRiskFlags, housing := Some secure,
            employmentStatus := Some employed, concerns := [lit ''emotional''] \<rparr>))
       = [lit ''Mental Health & Addiction'']"
proof -
  let ?e = "d\<lparr> severity := Some crisis, riskFlags := noRiskFlags, housing := Some secure,
            employmentStatus := Some employed, concerns := [lit ''emotional''] \<rparr>"
  have score: "riskScore (computeClassification ?e) = 6"
    by (simp add: riskScore_sum severityWeight_def flagWeight_def housingWeight_def
        employmentWeight_def noRiskFlags_def)
  have prio: "priority (computeClassification ?e) = Medium"
    by (simp only: priority_of_score score) (simp add: priorityOf_def)
  have bs: "buckets (computeClassification ?e) = [lit ''Mental Health & Addiction'']"
    by (simp add: buckets_append pick_def)
  show ?thesis
    using score prio bs priority_of_score [of d] by (simp add: priorityOf_def)
qed

text \<open>
  Claim C3. The buckets have no duplicates and form a subsequence of the canonical order;
  each bucket is present exactly when one of its concern keys is among the concerns; the
  result depends on the set of concerns only, not on their order; and "Mental Health &
  Addiction" appears once when both "emotional" and "addiction" are selected.
\<close>

theorem buckets_canonical:
  "distinct (buckets (computeClassification d))
   \<and> subseq (buckets (computeClassification d)) canonicalOrder
   \<and> (lit ''Safety/Crisis'' \<in> set (buckets (computeClassification d))
        \<longleftrightarrow> lit ''abuse'' \<in> set (concerns d))
   \<and> (lit ''Mental Health & Addiction'' \<in> set (buckets (computeClassification d))
        \<longleftrightarrow> lit ''emotional'' \<in> set (concerns d) \<or> lit ''addiction'' \<in> set (concerns d))
   \<and> (lit ''Employment & Skills'' \<in> set (buckets (computeClassification d))
        \<longleftrightarrow> lit ''employment'' \<in> set (concerns d))
   \<and> (lit ''Money/Debt Advice'' \<in> set (buckets (computeClassification d))
        \<longleftrightarrow> lit ''finance'' \<in> set (concerns d))
   \<and> (lit ''Housing Support'' \<in> set (buckets (computeClassification d))
        \<longleftrightarrow> lit ''housing'' \<in> set (concerns d))
   \<and> (lit ''Family/Relationship Support'' \<in> set (buckets (computeClassification d))
        \<longleftrightarrow> lit ''relationships'' \<in> set (concerns d))
   \<and> (lit ''Physical Health Navigation'' \<in> set (buckets (computeClassification d))
        \<longleftrightarrow> lit ''health'' \<in> set (concerns d))
   \<and> (lit ''Connection/Peer Support'' \<in> set (buckets (computeClassification d))
        \<longleftrightarrow> lit ''social'' \<in> set (concerns d))
   \<and> (set (concerns d') = set (concerns d)
        \<longrightarrow> buckets (computeClassification d') = buckets (computeClassification d))
   \<and> count_list (buckets (computeClassification
         (d\<lparr>concerns := [lit ''addiction'', lit ''emotional'']\<rparr>)))
         (lit ''Mental Health & Addiction'') = 1"
proof -
  have both: "buckets (computeClassification
         (d\<lparr>concerns := [lit ''addiction'', lit ''emotional'']\<rparr>))
        = [lit ''Mental Health & Addiction'']"
    by (simp add: buckets_append pick_def)
  show ?thesis
    using buckets_distinct [of d] buckets_subseq [of d] buckets_cong [of d' d]
    by (simp add: buckets_mem both)
qed

text \<open>The order-independence of C3 on two concrete records.\<close>

theorem buckets_canonical_witness:
  "buckets (computeClassification
      (initialData\<lparr>concerns := [lit ''social'', lit ''abuse'', lit ''social'']\<rparr>))
   = buckets (computeClassification (initialData\<lparr>concerns := [lit ''abuse'', lit ''social'']\<rparr>))
   \<and> buckets (computeClassification (initialData\<lparr>concerns := [lit ''abuse'', lit ''social'']\<rparr>))
     = [lit ''Safety/Crisis'', lit ''Connection/Peer Support'']"
proof -
  have "buckets (computeClassification (initialData\<lparr>concerns := [lit ''abuse'', lit ''social'']\<rparr>))
     = [lit ''Safety/Crisis'', lit ''Connection/Peer Support'']"
    by (simp add: buckets_append pick_def)
  then show ?thesis
    using buckets_canonical
      [of "initialData\<lparr>concerns := [lit ''abuse'', lit ''social'']\<rparr>"
          "initialData\<lparr>concerns := [lit ''social'', lit ''abuse'', lit ''social'']\<rparr>"]
    by (simp add: insert_commute)
qed

text \<open>
  Claim C8. Moving a single contributing field from a zero-weight state (severity unset or
  low, a flag off, housing other than homeless or atRisk, employment other than unemployed
  or unableToWork) to any other state, all else unchanged, never lowers the risk score.
\<close>

theorem riskScore_monotone:
  "(z = None \<or> z = Some low \<longrightarrow>
      riskScore (computeClassification (d\<lparr>severity := z\<rparr>))
      \<le> riskScore (computeClassification (d\<lparr>severity := s\<rparr>)))
   \<and> riskScore (computeClassification (d\<lparr>riskFlags := (riskFlags d)\<lparr>selfHarm := False\<rparr>\<rparr>))
     \<le> riskScore (computeClassification (d\<lparr>riskFlags := (riskFlags d)\<lparr>selfHarm := True\<rparr>\<rparr>))
   \<and> riskScore (computeClassification (d\<lparr>riskFlags := (riskFlags d)\<lparr>domesticAbuse := False\<rparr>\<rparr>))
     \<le> riskScore (computeClassification (d\<lparr>riskFlags := (riskFlags d)\<lparr>domesticAbuse := True\<rparr>\<rparr>))
   \<and> riskScore (computeClassification (d\<lparr>riskFlags := (riskFlags d)\<lparr>harmToOthers := False\<rparr>\<rparr>))
     \<le> riskScore (computeClassification (d\<lparr>riskFlags := (riskFlags d)\<lparr>harmToOthers := True\<rparr>\<rparr>))
   \<and> riskScore (computeClassification (d\<lparr>riskFlags := (riskFlags d)\<lparr>substanceRisk := False\<rparr>\<rparr>))
     \<le> riskScore (computeClassification (d\<lparr>riskFlags := (riskFlags d)\<lparr>substanceRisk := True\<rparr>\<rparr>))
   \<and> (hz \<noteq> Some homeless \<and> hz \<noteq> Some atRisk \<longrightarrow>
      riskScore (computeClassification (d\<lparr>housing := hz\<rparr>))
      \<le> riskScore (computeClassification (d\<lparr>housing := h\<rparr>)))
   \<and> (ez \<noteq> Some unemployed \<and> ez \<noteq> Some unableToWork \<longrightarrow>
      riskScore (computeClassification (d\<lparr>employmentStatus := ez\<rparr>))
      \<le> riskScore (computeClassification (d\<lparr>employmentStatus := e\<rparr>)))"
proof -
  have sev: "z = None \<or> z = Some low \<Longrightarrow> severityWeight z = 0"
    by (auto simp add: severityWeight_def)
  have hou: "hz \<noteq> Some homeless \<and> hz \<noteq> Some atRisk \<Longrightarrow> housingWeight hz = 0"
    by (simp add: housingWeight_def)
  have emp: "ez \<noteq> Some unemployed \<and> ez \<noteq> Some unableToWork \<Longrightarrow> employmentWeight ez = 0"
    by (simp add: employmentWeight_def)
  show ?thesis
    using severityWeight_bounds [of s] housingWeight_bounds [of h] employmentWeight_bounds [of e]
    by (auto simp add: riskScore_sum sev hou emp flagWeight_def)
qed

text \<open>C8 on the initial record of the wizard.\<close>

theorem riskScore_monotone_witness:
  "riskScore (computeClassification (initialData\<lparr>severity := Some low\<rparr>))
     \<le> riskScore (computeClassification (initialData\<lparr>severity := Some crisis\<rparr>))
   \<and> riskScore (computeClassification (initialData\<lparr>housing := Some secure\<rparr>))
     \<le> riskScore (computeClassification (initialData\<lparr>housing := Some homeless\<rparr>))
   \<and> riskScore (computeClassification (initialData\<lparr>employmentStatus := None\<rparr>))
     \<le> riskScore (computeClassification (initialData\<lparr>employmentStatus := Some unemployed\<rparr>))"
  using riskScore_monotone [of "Some low" initialData "Some crisis" "Some secure" "Some homeless"
      None "Some unemployed"]
  by simp

text \<open>
  Claim C9. Two records that differ only in their concerns have the same risk score and
  the same priority.
\<close>

theorem concerns_only_buckets:
  "riskScore (computeClassification (d\<lparr>concerns := cs\<rparr>)) = riskScore (computeClassification d)
   \<and> priority (computeClassification (d\<lparr>concerns := cs\<rparr>)) = priority (computeClassification d)"
  by (simp add: priority_of_score riskScore_sum)

section \<open>The email pattern\<close>

lemma many_unbounded:
  "(j, t) \<in> set (many lo None p i s) \<longleftrightarrow>
     (\<exists>u. s = u @ t \<and> j = i + length u \<and> lo \<le> length u \<and> list_all p u)"
proof (induction s arbitrary: lo i)
  case Nil
  show ?case by auto
next
  case (Cons c cs)
  show ?case
    by (auto simp add: Cons Cons_eq_append_conv)
qed

lemma run_Seq_mem:
  "st'' \<in> set (run (Seq a b) st) \<longleftrightarrow> (\<exists>st' \<in> set (run a st). st'' \<in> set (run b st'))"
  by simp

lemma run_Chr_mem:
  "(j, t) \<in> set (run (Chr c) (i, s)) \<longleftrightarrow> s = c # t \<and> j = Suc i"
  by (cases s) auto

lemma run_Eol_mem:
  "(j, t) \<in> set (run Eol (i, s)) \<longleftrightarrow> s = [] \<and> t = [] \<and> j = i"
  by auto

lemma run_Bol_mem:
  "(j, t) \<in> set (run Bol (i, s)) \<longleftrightarrow> i = 0 \<and> t = s \<and> j = 0"
  by auto

lemma run_Seq_mem':
  "(j, r) \<in> set (run (Seq a b) st) \<longleftrightarrow>
     (\<exists>j' t'. (j', t') \<in> set (run a st) \<and> (j, r) \<in> set (run b (j', t')))"
  by auto

lemma run_Eps_mem:
  "(j, t) \<in> set (run Eps (i, s)) \<longleftrightarrow> t = s \<and> j = i"
  by auto

lemma run_Many_mem:
  "(j, t) \<in> set (run (Many lo None p) (i, s)) \<longleftrightarrow>
     (\<exists>u. s = u @ t \<and> j = i + length u \<and> lo \<le> length u \<and> list_all p u)"
  by (simp add: many_unbounded)

lemma run_SeqI:
  "st' \<in> set (run a st) \<Longrightarrow> st'' \<in> set (run b st') \<Longrightarrow> st'' \<in> set (run (Seq a b) st)"
  by auto

lemma run_emailRe:
  "(j, r) \<in> set (run emailRe (i, t)) \<longleftrightarrow>
     i = 0 \<and> r = [] \<and> j = length t \<and>
     (\<exists>name host tld. t = name @ ch CHR ''@'' # host @ ch CHR ''.'' # tld
        \<and> name \<noteq> [] \<and> host \<noteq> [] \<and> tld \<noteq> []
        \<and> list_all notSpaceAt name \<and> list_all notSpaceAt host \<and> list_all notSpaceAt tld)"
  (is "?L \<longleftrightarrow> ?R")
proof (rule iffI)
  assume ?L
  then show ?R
    unfolding emailRe_def seqs_def foldr.simps o_apply run_Seq_mem' run_Bol_mem run_Chr_mem
      run_Eol_mem run_Eps_mem run_Many_mem
    by (auto simp add: Suc_le_eq)
next
  assume ?R
  then obtain name host tld where
    i: "i = 0" and r: "r = []" and j: "j = length t"
    and t: "t = name @ ch CHR ''@'' # host @ ch CHR ''.'' # tld"
    and ne: "name \<noteq> []" "host \<noteq> []" "tld \<noteq> []"
    and ok: "list_all notSpaceAt name" "list_all notSpaceAt host" "list_all notSpaceAt tld"
    by blast
  let ?n1 = "length name" and ?n2 = "Suc (length name)"
  let ?n3 = "Suc (length name) + length host" and ?n4 = "Suc (Suc (length name) + length host)"
  let ?n5 = "Suc (Suc (length name) + length host) + length tld"
  have s1: "(0, t) \<in> set (run Bol (0, t))"
    by simp
  have s2: "(?n1, ch CHR ''@'' # host @ ch CHR ''.'' # tld)
              \<in> set (run (Many 1 None notSpaceAt) (0, t))"
    unfolding run_Many_mem using ne ok t by (intro exI [of _ name]) (simp add: Suc_le_eq)
  have s3: "(?n2, host @ ch CHR ''.'' # tld)
              \<in> set (run (Chr (ch CHR ''@''))
                    (?n1, ch CHR ''@'' # host @ ch CHR ''.'' # tld))"
    unfolding run_Chr_mem by simp
  have s4: "(?n3, ch CHR ''.'' # tld)
              \<in> set (run (Many 1 None notSpaceAt) (?n2, host @ ch CHR ''.'' # tld))"
    unfolding run_Many_mem using ne ok by (intro exI [of _ host]) (simp add: Suc_le_eq)
  have s5: "(?n4, tld) \<in> set (run (Chr (ch CHR ''.'')) (?n3, ch CHR ''.'' # tld))"
    unfolding run_Chr_mem by simp
  have s6: "(?n5, []) \<in> set (run (Many 1 None notSpaceAt) (?n4, tld))"
    unfolding run_Many_mem using ne ok by (intro exI [of _ tld]) (simp add: Suc_le_eq)
  have s7: "(?n5, []) \<in> set (run Eol (?n5, []))"
    by simp
  have s8: "(?n5, []) \<in> set (run Eps (?n5, []))"
    by simp
  have "(?n5, []) \<in> set (run emailRe (0, t))"
    unfolding emailRe_def seqs_def foldr.simps o_apply id_apply
    by (intro run_SeqI [OF s1] run_SeqI [OF s2] run_SeqI [OF s3] run_SeqI [OF s4]
        run_SeqI [OF s5] run_SeqI [OF s6] run_SeqI [OF s7] s8)
  moreover have "?n5 = length t"
    by (simp add: t)
  ultimately show ?L
    by (simp only: i r j)
qed

lemma starts_mem: "(i, t) \<in> set (starts s) \<longleftrightarrow> i \<le> length s \<and> t = drop i s"
  by (auto simp add: starts_def)

lemma emailRe_shape: "test emailRe s \<longleftrightarrow> local_domain_tld s"
proof -
  have ne: "xs \<noteq> [] \<longleftrightarrow> (\<exists>j r. (j, r) \<in> set xs)" for xs :: "(nat \<times> jsstring) list"
    by (cases xs) auto
  have "test emailRe s
        \<longleftrightarrow> (\<exists>i t. (i, t) \<in> set (starts s) \<and> (\<exists>j r. (j, r) \<in> set (run emailRe (i, t))))"
    unfolding test_def list_ex_iff ne by auto
  also have "\<dots> \<longleftrightarrow> local_domain_tld s"
    unfolding run_emailRe starts_mem local_domain_tld_def lit_def
    by auto
  finally show ?thesis .
qed

section \<open>Properties of the validators\<close>

lemma when_simps: "when True f s = f s" "when False f s = s"
  by (simp_all add: when_def)

lemma dom_when_setError:
  "k \<in> dom (when c (setError k' m) e) \<longleftrightarrow> (c \<and> k = lit k') \<or> k \<in> dom e"
  by (cases c) (auto simp add: when_def setError_def)

lemma dom_ifElse_setError:
  "k \<in> dom (ifElse c (setError k1 m1) (when c2 (setError k2 m2)) e) \<longleftrightarrow>
     (c \<and> k = lit k1) \<or> (\<not> c \<and> c2 \<and> k = lit k2) \<or> k \<in> dom e"
  by (cases c; cases c2) (auto simp add: ifElse_def when_def setError_def)

lemma validateStep_1:
  "validateStep 1 d =
     when (present_and (postcode d) (\<lambda>v. \<not> test postcodeRe v))
       (setError ''postcode'' (lit ''Enter a valid UK postcode (e.g., SW1A 1AA)''))
    (when (present_and (phone d) (\<lambda>v. \<not> test ukPhoneRe v))
       (setError ''phone'' (lit ''Enter a valid UK phone number''))
    (when (trim (email d) = [] \<or> \<not> test emailRe (email d))
       (setError ''email'' (lit ''Enter a valid email address''))
    (ifElse (trim (lastName d) = [])
       (setError ''lastName'' (lit ''Last name is required''))
       (when (length (lastName d) > MAX_NAME_LENGTH)
          (setError ''lastName''
             (lit ''Last name must be less than '' @ decimal MAX_NAME_LENGTH
              @ lit '' characters'')))
    (ifElse (trim (firstName d) = [])
       (setError ''firstName'' (lit ''First name is required''))
       (when (length (firstName d) > MAX_NAME_LENGTH)
          (setError ''firstName''
             (lit ''First name must be less than '' @ decimal MAX_NAME_LENGTH
              @ lit '' characters'')))
     Map.empty))))"
  by (simp add: validateStep_def Let_def when_simps)

lemma validateStep_5:
  "validateStep 5 d =
     when (\<not> crisisProtocolOk (consent d) \<and> (severity d = Some high \<or> severity d = Some crisis))
       (setError ''crisis'' (lit ''Please acknowledge the crisis protocol''))
    (when (\<not> privacyPolicyAccepted (consent d))
       (setError ''privacy'' (lit ''You must accept the Privacy Policy to continue''))
     Map.empty)"
  by (simp add: validateStep_def Let_def when_simps)

lemma trim_lit_Smith: "trim (lit ''Smith'') = lit ''Smith''"
  by (simp add: trim_def lit_def isWhiteSpace_def ch_def)

lemma local_domain_tld_at: "local_domain_tld s \<Longrightarrow> ch CHR ''@'' \<in> set s"
  by (auto simp add: local_domain_tld_def lit_def)

lemma not_email: "\<not> local_domain_tld (lit ''not-an-email'')"
proof
  assume "local_domain_tld (lit ''not-an-email'')"
  then have "ch CHR ''@'' \<in> set (lit ''not-an-email'')"
    by (rule local_domain_tld_at)
  then show False
    by (simp add: lit_def)
qed

text \<open>
  Claim C4. At step 5 the errors have the key "privacy" exactly when the privacy policy is
  not accepted, and the key "crisis" exactly when the severity is high or crisis and the
  crisis protocol is not acknowledged; a record with severity high and the crisis protocol
  not acknowledged has the key "crisis".
\<close>

theorem validateStep_consent:
  "(lit ''privacy'' \<in> dom (validateStep 5 d) \<longleftrightarrow> \<not> privacyPolicyAccepted (consent d))
   \<and> (lit ''crisis'' \<in> dom (validateStep 5 d) \<longleftrightarrow>
        (severity d = Some high \<or> severity d = Some crisis) \<and> \<not> crisisProtocolOk (consent d))
   \<and> lit ''crisis'' \<in> dom (validateStep 5
        (d\<lparr>severity := Some high, consent := (consent d)\<lparr>crisisProtocolOk := False\<rparr>\<rparr>))"
  by (auto simp add: validateStep_5 dom_when_setError)

text \<open>
  Claim C5. At step 1 the errors have the key "firstName" exactly when the first name is
  empty after trimming or longer than 100 code units, the key "lastName" under the same
  rule, and the key "email" exactly when the email is empty after trimming or does not
  have the shape local@domain.tld. With first name "", last name "Smith" and email
  "not-an-email" the keys "firstName" and "email" are present and "lastName" is not.
\<close>

theorem validateStep_identity:
  "(lit ''firstName'' \<in> dom (validateStep 1 d) \<longleftrightarrow>
      trim (firstName d) = [] \<or> length (firstName d) > 100)
   \<and> (lit ''lastName'' \<in> dom (validateStep 1 d) \<longleftrightarrow>
      trim (lastName d) = [] \<or> length (lastName d) > 100)
   \<and> (lit ''email'' \<in> dom (validateStep 1 d) \<longleftrightarrow>
      trim (email d) = [] \<or> \<not> local_domain_tld (email d))
   \<and> lit ''firstName'' \<in> dom (validateStep 1
        (d\<lparr>firstName := lit '''', lastName := lit ''Smith'', email := lit ''not-an-email''\<rparr>))
   \<and> lit ''email'' \<in> dom (validateStep 1
        (d\<lparr>firstName := lit '''', lastName := lit ''Smith'', email := lit ''not-an-email''\<rparr>))
   \<and> lit ''lastName'' \<notin> dom (validateStep 1
        (d\<lparr>firstName := lit '''', lastName := lit ''Smith'', email := lit ''not-an-email''\<rparr>))"
proof -
  have keys: "lit ''firstName'' \<in> dom (validateStep 1 r) \<longleftrightarrow>
      trim (firstName r) = [] \<or> length (firstName r) > 100"
    "lit ''lastName'' \<in> dom (validateStep 1 r) \<longleftrightarrow>
      trim (lastName r) = [] \<or> length (lastName r) > 100"
    "lit ''email'' \<in> dom (validateStep 1 r) \<longleftrightarrow>
      trim (email r) = [] \<or> \<not> local_domain_tld (email r)" for r
    by (auto simp add: validateStep_1 dom_when_setError dom_ifElse_setError MAX_NAME_LENGTH_def
        emailRe_shape)
  have "trim (lit '''') = []"
    by (simp add: trim_def lit_def)
  moreover have "trim (lit ''Smith'') \<noteq> []"
    unfolding trim_lit_Smith by (simp add: lit_def)
  moreover have "length (lit ''Smith'') \<le> 100"
    by (simp add: lit_def)
  moreover note not_email
  ultimately show ?thesis
    by (simp add: keys)
qed

text \<open>
  Claim C10. For a step number below 1 or above 5 the errors are empty, whatever the
  record.
\<close>

theorem validateStep_out_of_range:
  "step < 1 \<or> 5 < step \<Longrightarrow> validateStep step d = Map.empty"
proof -
  assume "step < 1 \<or> 5 < step"
  then have "step \<noteq> 1" "step \<noteq> 2" "step \<noteq> 3" "step \<noteq> 4" "step \<noteq> 5"
    by auto
  then show ?thesis
    by (simp add: validateStep_def Let_def when_simps)
qed

text \<open>C10 at the steps 0, 6 and -3 on the initial record.\<close>

theorem validateStep_out_of_range_witness:
  "validateStep 0 initialData = Map.empty \<and> validateStep 6 initialData = Map.empty
   \<and> validateStep (- 3) initialData = Map.empty"
  using validateStep_out_of_range [of 0 initialData] validateStep_out_of_range [of 6 initialData]
    validateStep_out_of_range [of "- 3" initialData]
  by simp

section \<open>Properties of the sanitizer\<close>

lemma sanitizeInput_escaped: "sanitizeInput s = slice0 MAX_TEXT_LENGTH (trim (escaped s))"
  by (simp only: sanitizeInput_def escaped_def)

lemma replaceAll_absent: "c \<notin> set s \<Longrightarrow> replaceAll c rep s = s"
  by (induction s) (auto simp add: replaceAll_def)

lemma replaceAll_removes: "c \<notin> set rep \<Longrightarrow> c \<notin> set (replaceAll c rep s)"
  by (induction s) (auto simp add: replaceAll_def)

lemma replaceAll_keeps_out:
  "x \<notin> set rep \<Longrightarrow> x \<notin> set s \<Longrightarrow> x \<notin> set (replaceAll c rep s)"
  by (induction s) (auto simp add: replaceAll_def)

lemma lit_char_mem: "ch c \<in> set (lit s) \<longleftrightarrow> c \<in> set s"
  by (auto simp add: lit_def)

lemma escaped_no_special:
  assumes "x \<in> special"
  shows "x \<notin> set (escaped s)"
proof -
  from assms consider "x = ch CHR ''<''" | "x = ch CHR ''>''" | "x = ch CHR 0x22"
    | "x = ch CHR 0x27" | "x = ch CHR ''/''"
    unfolding special_def by blast
  then show ?thesis
  proof cases
    case 1
    show ?thesis unfolding 1 escaped_def
      by (intro replaceAll_removes replaceAll_keeps_out) (simp_all add: lit_char_mem)
  next
    case 2
    show ?thesis unfolding 2 escaped_def
      by (intro replaceAll_removes replaceAll_keeps_out) (simp_all add: lit_char_mem)
  next
    case 3
    show ?thesis unfolding 3 escaped_def
      by (intro replaceAll_removes replaceAll_keeps_out) (simp_all add: lit_char_mem)
  next
    case 4
    show ?thesis unfolding 4 escaped_def
      by (intro replaceAll_removes replaceAll_keeps_out) (simp_all add: lit_char_mem)
  next
    case 5
    show ?thesis unfolding 5 escaped_def
      by (intro replaceAll_removes replaceAll_keeps_out) (simp_all add: lit_char_mem)
  qed
qed

lemma escaped_absent: "set t \<inter> special = {} \<Longrightarrow> escaped t = t"
  unfolding special_def escaped_def
  by (simp add: replaceAll_absent)

lemma set_trim: "set (trim s) \<subseteq> set s"
proof -
  have "set (trim s) \<subseteq> set (rev (dropWhile isWhiteSpace s))"
    unfolding trim_def set_rev by (auto dest: set_dropWhileD)
  also have "\<dots> \<subseteq> set s"
    by (auto dest: set_dropWhileD)
  finally show ?thesis .
qed

lemma length_trim: "length (trim s) \<le> length s"
proof -
  have "length (trim s) \<le> length (dropWhile isWhiteSpace s)"
    using length_dropWhile_le [of isWhiteSpace "rev (dropWhile isWhiteSpace s)"]
    by (simp add: trim_def)
  also have "\<dots> \<le> length s"
    by (rule length_dropWhile_le)
  finally show ?thesis .
qed

lemma trim_prefix:
  "dropWhile isWhiteSpace s = trim s @ rev (takeWhile isWhiteSpace (rev (dropWhile isWhiteSpace s)))"
  unfolding trim_def by (metis rev_append rev_rev_ident takeWhile_dropWhile_id)

lemma trim_ends:
  assumes "trim s \<noteq> []"
  shows "\<not> isWhiteSpace (hd (trim s))" and "\<not> isWhiteSpace (last (trim s))"
proof -
  let ?y = "dropWhile isWhiteSpace s"
  have "?y = [] \<Longrightarrow> trim s = []"
    by (simp add: trim_def del: dropWhile_eq_Nil_conv)
  with assms have y: "?y \<noteq> []"
    by blast
  have "hd ?y = hd (trim s)"
    using assms by (subst trim_prefix) simp
  moreover have "\<not> isWhiteSpace (hd ?y)"
    using y by (rule hd_dropWhile)
  ultimately show "\<not> isWhiteSpace (hd (trim s))"
    by simp
  from assms have z: "dropWhile isWhiteSpace (rev ?y) \<noteq> []"
    by (simp add: trim_def)
  have "last (trim s) = hd (dropWhile isWhiteSpace (rev ?y))"
    using z by (simp add: trim_def last_rev)
  moreover have "\<not> isWhiteSpace (hd (dropWhile isWhiteSpace (rev ?y)))"
    using z by (rule hd_dropWhile)
  ultimately show "\<not> isWhiteSpace (last (trim s))"
    by simp
qed

lemma trim_fixed:
  "trim t = t \<longleftrightarrow> t = [] \<or> (\<not> isWhiteSpace (hd t) \<and> \<not> isWhiteSpace (last t))"
proof (cases "t = []")
  case True
  then show ?thesis by (simp add: trim_def)
next
  case False
  show ?thesis
  proof
    assume eq: "trim t = t"
    with False have "trim t \<noteq> []" by simp
    from trim_ends [OF this] show "t = [] \<or> (\<not> isWhiteSpace (hd t) \<and> \<not> isWhiteSpace (last t))"
      by (simp add: eq)
  next
    assume "t = [] \<or> (\<not> isWhiteSpace (hd t) \<and> \<not> isWhiteSpace (last t))"
    with False have h: "\<not> isWhiteSpace (hd t)" and l: "\<not> isWhiteSpace (last t)"
      by simp_all
    from False h have "dropWhile isWhiteSpace t = t"
      by (cases t) simp_all
    moreover from False l have "dropWhile isWhiteSpace (rev t) = rev t"
      by (cases "rev t") (simp_all add: hd_rev [symmetric] del: rev_is_Nil_conv)
    ultimately show "trim t = t"
      by (simp add: trim_def)
  qed
qed

lemma length_sanitizeInput: "length (sanitizeInput s) \<le> MAX_TEXT_LENGTH"
  by (simp add: sanitizeInput_escaped slice0_def)

lemma sanitizeInput_no_special: "set (sanitizeInput s) \<inter> special = {}"
proof -
  have "set (sanitizeInput s) \<subseteq> set (escaped s)"
    unfolding sanitizeInput_escaped slice0_def
    using set_take_subset set_trim by (rule subset_trans)
  then show ?thesis
    using escaped_no_special by blast
qed

lemma sanitizeInput_twice: "sanitizeInput (sanitizeInput s) = trim (sanitizeInput s)"
proof -
  have "length (trim (sanitizeInput s)) \<le> MAX_TEXT_LENGTH"
    using length_trim [of "sanitizeInput s"] length_sanitizeInput [of s] by (rule order_trans)
  then show ?thesis
    by (simp add: sanitizeInput_escaped [of "sanitizeInput s"]
        escaped_absent [OF sanitizeInput_no_special] slice0_def)
qed

lemma sanitizeInput_hd:
  assumes "sanitizeInput s \<noteq> []"
  shows "\<not> isWhiteSpace (hd (sanitizeInput s))"
proof -
  from assms have ne: "trim (escaped s) \<noteq> []"
    by (auto simp add: sanitizeInput_escaped slice0_def)
  from assms have "hd (sanitizeInput s) = hd (trim (escaped s))"
    by (cases "trim (escaped s)")
       (simp_all add: sanitizeInput_escaped slice0_def MAX_TEXT_LENGTH_def)
  with trim_ends(1) [OF ne] show ?thesis by simp
qed

lemma sanitizeInput_idem_iff:
  "sanitizeInput (sanitizeInput s) = sanitizeInput s \<longleftrightarrow>
     sanitizeInput s = [] \<or> \<not> isWhiteSpace (last (sanitizeInput s))"
  unfolding sanitizeInput_twice trim_fixed
  using sanitizeInput_hd [of s] by blast

lemma sanitizeInput_uncut:
  assumes "length (sanitizeInput s) < MAX_TEXT_LENGTH"
  shows "sanitizeInput s = [] \<or> \<not> isWhiteSpace (last (sanitizeInput s))"
proof -
  from assms have "sanitizeInput s = trim (escaped s)"
    by (simp add: sanitizeInput_escaped slice0_def)
  then show ?thesis
    using trim_ends(2) [of "escaped s"] by auto
qed

lemma escaped_idempotent: "escaped (escaped s) = escaped s"
proof -
  have "set (escaped s) \<inter> special = {}"
    using escaped_no_special [of _ s] by blast
  then show ?thesis
    by (rule escaped_absent)
qed

lemma replaceAll_append:
  "replaceAll c rep (xs @ ys) = replaceAll c rep xs @ replaceAll c rep ys"
  by (simp add: replaceAll_def)

lemma trim_drop_last:
  assumes "s \<noteq> []" and "\<not> isWhiteSpace (hd s)" and "\<not> isWhiteSpace (last s)"
    and "isWhiteSpace w"
  shows "trim (s @ [w]) = s"
proof -
  from assms(1,2) have "dropWhile isWhiteSpace (s @ [w]) = s @ [w]"
    by (cases s) simp_all
  moreover from assms(1,3) have "dropWhile isWhiteSpace (rev s) = rev s"
    by (cases "rev s") (simp_all add: hd_rev [symmetric] del: rev_is_Nil_conv)
  ultimately show ?thesis
    using assms(4) by (simp add: trim_def)
qed

lemma escaped_longInput:
  "escaped longInput = lit ''&lt;'' @ replicate 4995 (ch CHR ''a'') @ lit '' b''"
proof -
  let ?e = "lit ''&lt;'' @ replicate 4995 (ch CHR ''a'') @ lit '' b''"
  have "replaceAll (ch CHR ''<'') (lit ''&lt;'') (replicate 4995 (ch CHR ''a''))
          = replicate 4995 (ch CHR ''a'')"
    by (rule replaceAll_absent) simp
  then have first: "replaceAll (ch CHR ''<'') (lit ''&lt;'') longInput = ?e"
    unfolding longInput_def replaceAll_append
    by (simp add: replaceAll_def lit_def)
  have "set ?e \<inter> special = {}"
    by (auto simp add: special_def lit_def)
  then have rest: "ch CHR ''>'' \<notin> set ?e" "ch CHR 0x22 \<notin> set ?e" "ch CHR 0x27 \<notin> set ?e"
    "ch CHR ''/'' \<notin> set ?e"
    unfolding special_def by blast+
  show ?thesis
    unfolding escaped_def first by (simp only: replaceAll_absent rest not_False_eq_True)
qed

lemma sanitizeInput_longInput:
  "sanitizeInput longInput = lit ''&lt;'' @ replicate 4995 (ch CHR ''a'') @ lit '' ''"
proof -
  let ?e = "lit ''&lt;'' @ replicate 4995 (ch CHR ''a'') @ lit '' b''"
  have "\<not> isWhiteSpace (hd ?e)" "\<not> isWhiteSpace (last ?e)"
    by (simp_all add: lit_def isWhiteSpace_def ch_def)
  then have t: "trim ?e = ?e"
    by (simp add: trim_fixed)
  show ?thesis
    unfolding sanitizeInput_escaped escaped_longInput t
    by (simp add: slice0_def MAX_TEXT_LENGTH_def lit_def)
qed

lemma sanitizeInput_longInput_twice:
  "sanitizeInput (sanitizeInput longInput) = lit ''&lt;'' @ replicate 4995 (ch CHR ''a'')"
proof -
  let ?x = "lit ''&lt;'' @ replicate 4995 (ch CHR ''a'')"
  have "?x \<noteq> []" "\<not> isWhiteSpace (hd ?x)" "\<not> isWhiteSpace (last ?x)"
    "isWhiteSpace (ch CHR '' '')"
    by (simp_all add: lit_def isWhiteSpace_def ch_def)
  then have t: "trim (?x @ [ch CHR '' '']) = ?x"
    by (rule trim_drop_last)
  have s: "sanitizeInput longInput = ?x @ [ch CHR '' '']"
    by (simp add: sanitizeInput_longInput lit_def)
  have "sanitizeInput (sanitizeInput longInput) = trim (sanitizeInput longInput)"
    by (rule sanitizeInput_twice)
  also have "\<dots> = trim (?x @ [ch CHR '' ''])"
    by (simp only: s)
  also have "\<dots> = ?x"
    by (rule t)
  finally show ?thesis .
qed

lemma validateStep_3:
  "validateStep 3 d =
     when (present_and (concernDetails d) (\<lambda>v. length v > MAX_TEXT_LENGTH))
       (setError ''concernDetails''
          (lit ''Details must be less than '' @ decimal MAX_TEXT_LENGTH @ lit '' characters''))
    (when (severity d = None)
       (setError ''severity'' (lit ''How urgent/severe does this feel right now?''))
    (when (length (concerns d) = 0)
       (setError ''concerns'' (lit ''Pick at least one area you want help with''))
     Map.empty))"
  by (simp add: validateStep_def Let_def when_simps)

text \<open>Where nothing is cut, a second pass changes nothing.\<close>

lemma sanitizeInput_idempotent_short:
  "length (sanitizeInput s) < MAX_TEXT_LENGTH \<Longrightarrow>
   sanitizeInput (sanitizeInput s) = sanitizeInput s"
  using sanitizeInput_uncut [of s] by (simp add: sanitizeInput_idem_iff)

text \<open>
  Claim C6. Sanitizing an already sanitized string is a no-op. The code breaks this:
  \<open>sanitizeInput\<close> trims before it cuts to 5000 code units, so the cut can leave white
  space at the end, which a second pass trims. \<open>longInput\<close> has 4998 code units and is
  accepted as \<open>concernDetails\<close> at step 3; its first pass is "&lt;", 4995 times "a" and
  a space (5000 code units), its second pass the same without the space.
\<close>

theorem sanitizeInput_breaks_idempotence:
  "length longInput = 4998
   \<and> lit ''concernDetails'' \<notin> dom (validateStep 3 (d\<lparr>concernDetails := Some longInput\<rparr>))
   \<and> sanitizeInput longInput = lit ''&lt;'' @ replicate 4995 (ch CHR ''a'') @ lit '' ''
   \<and> sanitizeInput (sanitizeInput longInput) = lit ''&lt;'' @ replicate 4995 (ch CHR ''a'')
   \<and> sanitizeInput (sanitizeInput longInput) \<noteq> sanitizeInput longInput"
proof -
  have len: "length longInput = 4998"
    by (simp add: longInput_def lit_def)
  have "lit ''concernDetails'' \<notin> dom (validateStep 3 (d\<lparr>concernDetails := Some longInput\<rparr>))"
    by (simp add: validateStep_3 dom_when_setError present_and_def len MAX_TEXT_LENGTH_def)
  moreover have "sanitizeInput (sanitizeInput longInput) \<noteq> sanitizeInput longInput"
  proof
    assume "sanitizeInput (sanitizeInput longInput) = sanitizeInput longInput"
    then have "length (sanitizeInput (sanitizeInput longInput)) = length (sanitizeInput longInput)"
      by (rule arg_cong)
    moreover have "length (sanitizeInput (sanitizeInput longInput)) = 4999"
      by (simp only: sanitizeInput_longInput_twice) (simp add: lit_def)
    moreover have "length (sanitizeInput longInput) = 5000"
      by (simp only: sanitizeInput_longInput) (simp add: lit_def)
    ultimately show False
      by simp
  qed
  ultimately show ?thesis
    using len sanitizeInput_longInput sanitizeInput_longInput_twice by simp
qed

section \<open>Properties of the identifier generator\<close>

lemma version_nibble: "drop_bit 4 (or (and (n::nat) 15) 64) = 4"
  by simp

lemma variant_nibble: "drop_bit 4 (or (and (n::nat) 63) 128) \<in> {8, 9, 10, 11}"
proof -
  have "and (drop_bit 4 n) (3::nat) = drop_bit 4 n mod 4"
    using take_bit_eq_mask [of 2 "drop_bit 4 n"] by (simp add: take_bit_eq_mod mask_eq_exp_minus_1)
  moreover have "drop_bit 4 n mod 4 \<in> {0, 1, 2, 3}"
    by auto
  ultimately have "and (drop_bit 4 n) (3::nat) \<in> {0, 1, 2, 3}"
    by simp
  then show ?thesis
    by auto
qed

lemma unat_version: "unat (or (and b 0x0f) 0x40 :: 8 word) div 16 = 4"
proof -
  have "unat (or (and b 0x0f) 0x40 :: 8 word) = or (and (unat b) 15) 64"
    by (simp add: unsigned_or_eq unsigned_and_eq)
  then show ?thesis
    using version_nibble [of "unat b"] by (simp add: drop_bit_eq_div)
qed

lemma unat_variant: "unat (or (and b 0x3f) 0x80 :: 8 word) div 16 \<in> {8, 9, 10, 11}"
proof -
  have "unat (or (and b 0x3f) 0x80 :: 8 word) = or (and (unat b) 63) 128"
    by (simp add: unsigned_or_eq unsigned_and_eq)
  then show ?thesis
    using variant_nibble [of "unat b"] by (simp add: drop_bit_eq_div)
qed

lemma hexDigit_0: "hexDigit 0 = ch CHR ''0''"
  by (simp add: hexDigit_def lit_def)

lemma hex_pair:
  "padStart2 (toString16 b) = [hexDigit (unat b div 16), hexDigit (unat b mod 16)]"
  by (simp add: padStart2_def toString16_def hexDigit_0)

lemma upt_16: "[0..<16] = [0, 1, 2, 3, 4, 5, 6, 7, 8, 9, 10, 11, 12, 13, 14, 15]"
  by code_simp

lemma uuid_16:
  "uuidFromBytes [b0, b1, b2, b3, b4, b5, b6, b7, b8, b9, b10, b11, b12, b13, b14, b15] =
     padStart2 (toString16 b0) @ padStart2 (toString16 b1) @ padStart2 (toString16 b2)
     @ padStart2 (toString16 b3) @ lit ''-''
     @ padStart2 (toString16 b4) @ padStart2 (toString16 b5) @ lit ''-''
     @ padStart2 (toString16 (or (and b6 0x0f) 0x40)) @ padStart2 (toString16 b7) @ lit ''-''
     @ padStart2 (toString16 (or (and b8 0x3f) 0x80)) @ padStart2 (toString16 b9) @ lit ''-''
     @ padStart2 (toString16 b10) @ padStart2 (toString16 b11) @ padStart2 (toString16 b12)
     @ padStart2 (toString16 b13) @ padStart2 (toString16 b14) @ padStart2 (toString16 b15)"
  by (simp add: uuidFromBytes_def Let_def hex_pair slice_def sliceFrom_def)

lemma uuid_shape:
  fixes fill :: "nat \<Rightarrow> 8 word"
  defines "u \<equiv> uuidFromBytes (map fill [0..<16])"
  shows "length u = 36"
    and "u ! 8 = ch CHR ''-''" and "u ! 13 = ch CHR ''-''"
    and "u ! 18 = ch CHR ''-''" and "u ! 23 = ch CHR ''-''"
    and "u ! 14 = ch CHR ''4''"
    and "u ! 19 \<in> {ch CHR ''8'', ch CHR ''9'', ch CHR ''a'', ch CHR ''b''}"
proof -
  have u: "u = uuidFromBytes [fill 0, fill 1, fill 2, fill 3, fill 4, fill 5, fill 6, fill 7,
      fill 8, fill 9, fill 10, fill 11, fill 12, fill 13, fill 14, fill 15]"
    unfolding u_def upt_16 by simp
  show "length u = 36"
    unfolding u uuid_16 hex_pair by (simp add: lit_def)
  show "u ! 8 = ch CHR ''-''" "u ! 13 = ch CHR ''-''" "u ! 18 = ch CHR ''-''"
    "u ! 23 = ch CHR ''-''"
    unfolding u uuid_16 hex_pair by (simp_all add: lit_def)
  show "u ! 14 = ch CHR ''4''"
    unfolding u uuid_16 hex_pair by (simp add: lit_def unat_version) (simp add: hexDigit_def lit_def)
  have "hexDigit (unat (or (and (fill 8) 0x3f) 0x80) div 16)
          \<in> {ch CHR ''8'', ch CHR ''9'', ch CHR ''a'', ch CHR ''b''}"
    using unat_variant [of "fill 8"] by (auto simp add: hexDigit_def lit_def)
  then show "u ! 19 \<in> {ch CHR ''8'', ch CHR ''9'', ch CHR ''a'', ch CHR ''b''}"
    unfolding u uuid_16 hex_pair by (simp add: lit_def)
qed

lemma hexDigits_distinct: "distinct (lit ''0123456789abcdef'')"
proof -
  have "inj ch" by (rule injI) simp
  then show ?thesis
    unfolding lit_def by (simp add: distinct_map inj_on_def)
qed

lemma hexDigit_inj: "a < 16 \<Longrightarrow> b < 16 \<Longrightarrow> hexDigit a = hexDigit b \<longleftrightarrow> a = b"
  unfolding hexDigit_def
  by (rule nth_eq_iff_index_eq [OF hexDigits_distinct]) (simp_all add: lit_def)

lemma unat_byte: "unat (b :: 8 word) < 256"
  using unsigned_less [of b] by simp

lemma hex_byte_inj:
  "padStart2 (toString16 a) = padStart2 (toString16 b) \<longleftrightarrow> a = b"
proof -
  have da: "unat a div 16 < 16" and db: "unat b div 16 < 16"
    using unat_byte [of a] unat_byte [of b] by simp_all
  have "padStart2 (toString16 a) = padStart2 (toString16 b) \<longleftrightarrow>
          unat a div 16 = unat b div 16 \<and> unat a mod 16 = unat b mod 16"
    unfolding hex_pair by (simp add: hexDigit_inj da db)
  also have "\<dots> \<longleftrightarrow> unat a = unat b"
    by (metis div_mult_mod_eq)
  also have "\<dots> \<longleftrightarrow> a = b"
    by (rule word_unat_eq_iff [symmetric])
  finally show ?thesis .
qed

lemma length_hex_byte: "length (padStart2 (toString16 b)) = 2"
  by (simp add: hex_pair)

lemma version_mask_inj:
  "or (and a 0x0f) 0x40 = or (and b 0x0f) (0x40 :: 8 word) \<longleftrightarrow> and a 0x0f = and b 0x0f"
proof
  assume "or (and a 0x0f) 0x40 = or (and b 0x0f) (0x40 :: 8 word)"
  then have "and (or (and a 0x0f) 0x40) 0x0f = and (or (and b 0x0f) 0x40) (0x0f :: 8 word)"
    by simp
  then show "and a 0x0f = and b 0x0f"
    by (simp add: bit.conj_disj_distrib2 and.assoc)
next
  assume "and a 0x0f = and b 0x0f"
  then show "or (and a 0x0f) 0x40 = or (and b 0x0f) (0x40 :: 8 word)"
    by simp
qed

lemma variant_mask_inj:
  "or (and a 0x3f) 0x80 = or (and b 0x3f) (0x80 :: 8 word) \<longleftrightarrow> and a 0x3f = and b 0x3f"
proof
  assume "or (and a 0x3f) 0x80 = or (and b 0x3f) (0x80 :: 8 word)"
  then have "and (or (and a 0x3f) 0x80) 0x3f = and (or (and b 0x3f) 0x80) (0x3f :: 8 word)"
    by simp
  then show "and a 0x3f = and b 0x3f"
    by (simp add: bit.conj_disj_distrib2 and.assoc)
next
  assume "and a 0x3f = and b 0x3f"
  then show "or (and a 0x3f) 0x80 = or (and b 0x3f) (0x80 :: 8 word)"
    by simp
qed

lemma uuid_16_inj:
  "uuidFromBytes [b0, b1, b2, b3, b4, b5, b6, b7, b8, b9, b10, b11, b12, b13, b14, b15] =
   uuidFromBytes [c0, c1, c2, c3, c4, c5, c6, c7, c8, c9, c10, c11, c12, c13, c14, c15]
   \<longleftrightarrow>
     b0 = c0 \<and> b1 = c1 \<and> b2 = c2 \<and> b3 = c3 \<and> b4 = c4 \<and> b5 = c5
     \<and> and b6 0x0f = and c6 0x0f \<and> b7 = c7
     \<and> and b8 0x3f = and c8 0x3f \<and> b9 = c9
     \<and> b10 = c10 \<and> b11 = c11 \<and> b12 = c12 \<and> b13 = c13 \<and> b14 = c14 \<and> b15 = c15"
  unfolding uuid_16
  by (simp add: append_eq_append_conv length_hex_byte hex_byte_inj version_mask_inj
      variant_mask_inj)

lemma hexDigit_mem: "n < 16 \<Longrightarrow> hexDigit n \<in> set (lit ''0123456789abcdef'')"
  unfolding hexDigit_def by (rule nth_mem) (simp add: lit_def)

lemma hex_byte_chars: "set (padStart2 (toString16 b)) \<subseteq> set (lit ''0123456789abcdef'')"
proof -
  have "unat b div 16 < 16" "unat b mod 16 < 16"
    using unat_byte [of b] by simp_all
  then show ?thesis
    unfolding hex_pair using hexDigit_mem by simp
qed

lemma uuid_chars:
  "set (uuidFromBytes (map fill [0..<16])) \<subseteq> set (lit ''0123456789abcdef-'')"
proof -
  have sub: "set (lit ''0123456789abcdef'') \<subseteq> set (lit ''0123456789abcdef-'')"
    by (auto simp add: lit_def)
  have h: "set (padStart2 (toString16 b)) \<subseteq> set (lit ''0123456789abcdef-'')" for b
    using hex_byte_chars [of b] sub by (rule subset_trans)
  have d: "set (lit ''-'') \<subseteq> set (lit ''0123456789abcdef-'')"
    by (simp add: lit_def)
  show ?thesis
    unfolding upt_16 list.map uuid_16 set_append
    by (intro Un_least h d)
qed

text \<open>
  Claim C7. The identifier does not depend on the wall clock. It is the string
  \<open>crypto.randomUUID\<close> returns when that method exists; otherwise the version-4 UUID
  formatted from the 16 bytes \<open>crypto.getRandomValues\<close> wrote when that method exists;
  otherwise the error "Crypto API not available" is thrown and no identifier is returned.
  The formatted UUID has 36 code units, all lower-case hexadecimal digits or hyphens, with
  hyphens at 8, 13, 18 and 23, version digit 4 and variant digit 8, 9, a or b; and it
  carries every random bit that the version and variant do not overwrite: two fillings
  of the array give the same identifier exactly when they agree on the 14 other bytes, on
  the low 4 bits of byte 6 and on the low 6 bits of byte 8.
\<close>

theorem generateSecureId_sources:
  "generateSecureId (env\<lparr>now := t\<rparr>) = generateSecureId env
   \<and> generateSecureId env =
       (case crypto env of
          None \<Rightarrow> Inl (Error (lit ''Crypto API not available''))
        | Some c \<Rightarrow>
           (case randomUUID c of
              Some uuid \<Rightarrow> Inr uuid
            | None \<Rightarrow>
               (case getRandomValues c of
                  Some fill \<Rightarrow> Inr (uuidFromBytes (map fill [0..<16]))
                | None \<Rightarrow> Inl (Error (lit ''Crypto API not available'')))))
   \<and> (uuidFromBytes (map fill [0..<16]) = uuidFromBytes (map fill' [0..<16]) \<longleftrightarrow>
        fill 0 = fill' 0 \<and> fill 1 = fill' 1 \<and> fill 2 = fill' 2 \<and> fill 3 = fill' 3
        \<and> fill 4 = fill' 4 \<and> fill 5 = fill' 5
        \<and> and (fill 6) 0x0f = and (fill' 6) 0x0f \<and> fill 7 = fill' 7
        \<and> and (fill 8) 0x3f = and (fill' 8) 0x3f \<and> fill 9 = fill' 9
        \<and> fill 10 = fill' 10 \<and> fill 11 = fill' 11 \<and> fill 12 = fill' 12
        \<and> fill 13 = fill' 13 \<and> fill 14 = fill' 14 \<and> fill 15 = fill' 15)
   \<and> set (uuidFromBytes (map fill [0..<16])) \<subseteq> set (lit ''0123456789abcdef-'')
   \<and> length (uuidFromBytes (map fill [0..<16])) = 36
   \<and> uuidFromBytes (map fill [0..<16]) ! 8 = ch CHR ''-''
   \<and> uuidFromBytes (map fill [0..<16]) ! 13 = ch CHR ''-''
   \<and> uuidFromBytes (map fill [0..<16]) ! 14 = ch CHR ''4''
   \<and> uuidFromBytes (map fill [0..<16]) ! 18 = ch CHR ''-''
   \<and> uuidFromBytes (map fill [0..<16]) ! 19 \<in> {ch CHR ''8'', ch CHR ''9'', ch CHR ''a'', ch CHR ''b''}
   \<and> uuidFromBytes (map fill [0..<16]) ! 23 = ch CHR ''-''"
proof -
  have "crypto (env\<lparr>now := t\<rparr>) = crypto env"
    by simp
  then have clock: "generateSecureId (env\<lparr>now := t\<rparr>) = generateSecureId env"
    by (simp only: generateSecureId_def)
  have cases: "generateSecureId env =
       (case crypto env of
          None \<Rightarrow> Inl (Error (lit ''Crypto API not available''))
        | Some c \<Rightarrow>
           (case randomUUID c of
              Some uuid \<Rightarrow> Inr uuid
            | None \<Rightarrow>
               (case getRandomValues c of
                  Some fill \<Rightarrow> Inr (uuidFromBytes (map fill [0..<16]))
                | None \<Rightarrow> Inl (Error (lit ''Crypto API not available'')))))"
    by (cases "crypto env") (auto simp add: generateSecureId_def split: option.splits)
  have inj: "uuidFromBytes (map fill [0..<16]) = uuidFromBytes (map fill' [0..<16]) \<longleftrightarrow>
        fill 0 = fill' 0 \<and> fill 1 = fill' 1 \<and> fill 2 = fill' 2 \<and> fill 3 = fill' 3
        \<and> fill 4 = fill' 4 \<and> fill 5 = fill' 5
        \<and> and (fill 6) 0x0f = and (fill' 6) 0x0f \<and> fill 7 = fill' 7
        \<and> and (fill 8) 0x3f = and (fill' 8) 0x3f \<and> fill 9 = fill' 9
        \<and> fill 10 = fill' 10 \<and> fill 11 = fill' 11 \<and> fill 12 = fill' 12
        \<and> fill 13 = fill' 13 \<and> fill 14 = fill' 14 \<and> fill 15 = fill' 15"
    unfolding upt_16 list.map by (rule uuid_16_inj)
  show ?thesis
    using clock cases inj uuid_chars [of fill] uuid_shape [of fill] by blast
qed

end
